theory Spec2Isabelle
  imports Complex_Main "HOL-Library.Multiset"
begin

section \<open>The circuit simulator of \<open>src/pages/CircuitVisualizer.tsx\<close>\<close>

text \<open>
  The page keeps one amplitude pair per qubit and evolves it gate by gate
  (\<open>simulateCircuit\<close>, lines 87 to 199 of the source). JavaScript numbers that
  hold counts and indices (\<open>numQubits\<close>, \<open>shots\<close>, \<open>gate.qubit\<close>, loop
  counters) are natural numbers here: the sliders and the row index of
  \<open>addGate\<close> supply nothing else; a negative or fractional \<open>gate.qubit\<close>, for
  which \<open>states[q]\<close> would be undefined, is outside this type. The 32 bits of
  the shift of line 160 and the length to which \<open>push\<close> can grow an array are
  written out.
  Amplitudes and probabilities are exact reals, so \<open>Math.SQRT1_2\<close> is
  \<open>sqrt (1 / 2)\<close> and \<open>Math.cos (Math.PI / 4)\<close> is \<open>cos (pi / 4)\<close>; the rounding
  of IEEE doubles is not modelled.
\<close>

subsection \<open>Data model\<close>

datatype GateType = H | X | Y | Z | CNOT | T | S | M

record Gate =
  gate_id :: string
  type :: GateType
  qubit :: nat
  controlQubit :: "nat option"

text \<open>An amplitude is the object \<open>{ real, imag }\<close> of the source.\<close>

record Amplitude =
  real_part :: real
  imag_part :: real

record QubitState =
  alpha :: Amplitude
  beta :: Amplitude

text \<open>One entry of \<open>measurementResults\<close>.\<close>

record Outcome =
  state :: string
  probability :: real
  count :: nat

text \<open>
  The only exceptions the body of \<open>simulateCircuit\<close> can raise on natural-number
  arguments come from the array primitives of the language.
\<close>

datatype error = RangeError

subsection \<open>Gate application\<close>

text \<open>
  The squared magnitude of an amplitude, as computed on line 163
  (\<open>amplitude.real * amplitude.real + amplitude.imag * amplitude.imag\<close>).
\<close>

definition ampProb :: "Amplitude \<Rightarrow> real" where
  "ampProb a = real_part a * real_part a + imag_part a * imag_part a"

definition normSq :: "QubitState \<Rightarrow> real" where
  "normSq s = ampProb (alpha s) + ampProb (beta s)"

text \<open>
  The \<open>switch (gate.type)\<close> of lines 101 to 148, as a function of the qubit's
  state object. The source has no \<open>case\<close> for \<open>'CNOT'\<close> and \<open>'M'\<close> and no
  \<open>default\<close>, so these two kinds fall through the switch. The amplitude objects
  are never written to in place (every assignment stores a fresh object or swaps
  two references), and every element of \<open>states\<close> is an object of its own,
  so sharing between \<open>alpha\<close> and \<open>beta\<close> after an \<open>X\<close> has no effect and
  values are enough.
\<close>

fun gateAction :: "GateType \<Rightarrow> QubitState \<Rightarrow> QubitState" where
  "gateAction H s =
     (let alphaH = alpha s; betaH = beta s; sqrt2 = sqrt (1 / 2) in
      \<lparr> alpha = \<lparr> real_part = sqrt2 * (real_part alphaH + real_part betaH),
                  imag_part = sqrt2 * (imag_part alphaH + imag_part betaH) \<rparr>,
        beta = \<lparr> real_part = sqrt2 * (real_part alphaH - real_part betaH),
                 imag_part = sqrt2 * (imag_part alphaH - imag_part betaH) \<rparr> \<rparr>)"
| "gateAction X s =
     (let temp = alpha s in s \<lparr> alpha := beta s, beta := temp \<rparr>)"
| "gateAction Z s =
     s \<lparr> beta := \<lparr> real_part = - real_part (beta s),
                    imag_part = - imag_part (beta s) \<rparr> \<rparr>"
| "gateAction Y s =
     (let alphaY = alpha s in
      s \<lparr> alpha := \<lparr> real_part = imag_part (beta s),
                     imag_part = - real_part (beta s) \<rparr>,
          beta := \<lparr> real_part = - imag_part alphaY,
                    imag_part = real_part alphaY \<rparr> \<rparr>)"
| "gateAction S s =
     s \<lparr> beta := \<lparr> real_part = - imag_part (beta s),
                    imag_part = real_part (beta s) \<rparr> \<rparr>"
| "gateAction T s =
     (let c = cos (pi / 4); sn = sin (pi / 4); betaT = beta s in
      s \<lparr> beta := \<lparr> real_part = c * real_part betaT - sn * imag_part betaT,
                    imag_part = sn * real_part betaT + c * imag_part betaT \<rparr> \<rparr>)"
| "gateAction CNOT s = s"
| "gateAction M s = s"

text \<open>
  The callback of \<open>gates.forEach\<close> (lines 97 to 149): a gate whose qubit is not
  below \<open>numQubits\<close> returns at once, any other gate rewrites \<open>states[q]\<close>.
\<close>

definition applyGate :: "nat \<Rightarrow> QubitState list \<Rightarrow> Gate \<Rightarrow> QubitState list" where
  "applyGate numQubits states gate =
     (let q = qubit gate in
      if q \<ge> numQubits then states
      else states[q := gateAction (type gate) (states ! q)])"

subsection \<open>Measurement probabilities\<close>

text \<open>
  \<open>(i >> k) & 1\<close> on a non-negative integer \<open>i\<close>. The bitwise operators of
  JavaScript work on 32 bits: \<open>i\<close> is reduced modulo \<open>2^32\<close>, the shift count is
  taken modulo 32, the shift propagates the sign and the mask keeps the lowest
  bit. The result is bit \<open>k mod 32\<close> of the low 32 bits of \<open>i\<close>.
\<close>

definition shiftRightAnd1 :: "nat \<Rightarrow> nat \<Rightarrow> nat" where
  "shiftRightAnd1 i k = ((i mod 2 ^ 32) div 2 ^ (k mod 32)) mod 2"

text \<open>
  The body of the outer loop, lines 158 to 165: the product, over the qubits,
  of the squared magnitude of \<open>alpha\<close> or \<open>beta\<close>, chosen by a bit of \<open>i\<close>.
\<close>

definition jointProb :: "nat \<Rightarrow> QubitState list \<Rightarrow> nat \<Rightarrow> real" where
  "jointProb numQubits states i =
     foldl (\<lambda>prob q.
              let bit = shiftRightAnd1 i (numQubits - 1 - q);
                  st = states ! q;
                  amplitude = (if bit = 0 then alpha st else beta st)
              in prob * ampProb amplitude)
           1 [0..<numQubits]"

text \<open>
  \<open>Array(n)\<close> raises a \<open>RangeError\<close> when \<open>n\<close> is above \<open>2^32 - 1\<close>.
\<close>

definition maxLengthArgument :: nat where
  "maxLengthArgument = 2 ^ 32 - 1"

text \<open>
  The length to which \<open>push\<close> can grow an array in V8, the engine of Chrome and
  Node.js. A \<open>push\<close> onto a full store of \<open>n - 1\<close> elements asks for a store
  of \<open>n + n div 2 + 16\<close>, which gives the capacities 17, 43, 82, \<open>\<dots>\<close>,
  75209227, 112813858. The next step asks for 169220804 elements, more than a
  store may hold (\<open>2^27 - 1\<close>), so the \<open>push\<close> of element number 112813859
  raises \<open>RangeError: Invalid array length\<close>. The language itself allows less
  than \<open>2^32\<close> elements.
\<close>

definition maxPushLength :: nat where
  "maxPushLength = 112813858"

text \<open>
  Lines 154 to 167. The loop pushes one probability for each
  \<open>i < Math.pow(2, numQubits)\<close>; when that bound exceeds the length that \<open>push\<close>
  can reach, the loop ends in the \<open>RangeError\<close> of \<open>push\<close>, which nothing
  catches. A power of two is within the length up to \<open>2^26\<close>.
\<close>

definition probabilities :: "nat \<Rightarrow> QubitState list \<Rightarrow> error + real list" where
  "probabilities numQubits states =
     (let numStates = 2 ^ numQubits in
      if numStates > maxPushLength then Inl RangeError
      else Inr (map (jointProb numQubits states) [0..<numStates]))"

subsection \<open>Sampling\<close>

text \<open>
  The inner loop of lines 178 to 185 for one draw \<open>r\<close>: the index of the first
  state whose cumulative probability reaches \<open>r\<close>, or nothing when the loop ends
  without a \<open>break\<close>.
\<close>

fun pickState :: "real \<Rightarrow> real \<Rightarrow> nat \<Rightarrow> real list \<Rightarrow> nat option" where
  "pickState r cumulative j [] = None"
| "pickState r cumulative j (p # ps) =
     (let cumulative' = cumulative + p in
      if r \<le> cumulative' then Some j
      else pickState r cumulative' (j + 1) ps)"

text \<open>\<open>j.toString(2)\<close> and \<open>padStart\<close>.\<close>

definition binDigit :: "nat \<Rightarrow> char" where
  "binDigit d = (if d = 0 then CHR ''0'' else CHR ''1'')"

fun toBinary :: "nat \<Rightarrow> string" where
  "toBinary j =
     (if j < 2 then [binDigit j] else toBinary (j div 2) @ [binDigit (j mod 2)])"

declare toBinary.simps [simp del]

definition padStart :: "nat \<Rightarrow> char \<Rightarrow> string \<Rightarrow> string" where
  "padStart targetLength c s = replicate (targetLength - length s) c @ s"

definition stateLabel :: "nat \<Rightarrow> nat \<Rightarrow> string" where
  "stateLabel numQubits j = padStart numQubits (CHR ''0'') (toBinary j)"

text \<open>
  \<open>counts[state] = (counts[state] || 0) + 1\<close> on the object \<open>counts\<close>, kept as
  the list of its properties in the order of their creation.
\<close>

fun incrementCount :: "string \<Rightarrow> (string \<times> nat) list \<Rightarrow> (string \<times> nat) list" where
  "incrementCount key [] = [(key, 1)]"
| "incrementCount key ((k, c) # rest) =
     (if k = key then (k, c + 1) # rest else (k, c) # incrementCount key rest)"

text \<open>
  The loop over the shots, lines 175 to 186. \<open>random i\<close> is the value that the
  call of \<open>Math.random()\<close> returns in iteration \<open>i\<close>.
\<close>

definition sampleShots ::
    "nat \<Rightarrow> nat \<Rightarrow> real list \<Rightarrow> (nat \<Rightarrow> real) \<Rightarrow> (string \<times> nat) list" where
  "sampleShots numQubits shots normalized random =
     foldl (\<lambda>counts i.
              case pickState (random i) 0 0 normalized of
                None \<Rightarrow> counts
              | Some j \<Rightarrow> incrementCount (stateLabel numQubits j) counts)
           [] [0..<shots]"

subsection \<open>Results\<close>

text \<open>
  \<open>Object.entries\<close> lists the properties whose name is an array index (a
  decimal numeral without leading zero, below \<open>2^32 - 1\<close>) first, by ascending
  value, and then the other properties in the order of their creation.
\<close>

definition isDigit :: "char \<Rightarrow> bool" where
  "isDigit c = (48 \<le> (of_char c :: nat) \<and> (of_char c :: nat) \<le> 57)"

definition decimalValue :: "string \<Rightarrow> nat" where
  "decimalValue s = foldl (\<lambda>v c. 10 * v + (of_char c - 48)) 0 s"

definition isArrayIndex :: "string \<Rightarrow> bool" where
  "isArrayIndex s =
     (s \<noteq> [] \<and> list_all isDigit s \<and> (hd s \<noteq> CHR ''0'' \<or> length s = 1)
      \<and> decimalValue s < 2 ^ 32 - 1)"

definition objectEntries :: "(string \<times> nat) list \<Rightarrow> (string \<times> nat) list" where
  "objectEntries props =
     sort_key (\<lambda>kv. decimalValue (fst kv)) (filter (\<lambda>kv. isArrayIndex (fst kv)) props)
     @ filter (\<lambda>kv. \<not> isArrayIndex (fst kv)) props"

text \<open>The \<open>map\<close> of lines 189 to 193 and the stable \<open>sort\<close> by descending count.\<close>

definition toOutcome :: "nat \<Rightarrow> string \<times> nat \<Rightarrow> Outcome" where
  "toOutcome shots kv =
     \<lparr> state = fst kv, probability = real (snd kv) / real shots, count = snd kv \<rparr>"

definition sortResults :: "Outcome list \<Rightarrow> Outcome list" where
  "sortResults rs = sort_key (\<lambda>r. - int (count r)) rs"

subsection \<open>The simulation\<close>

record SimResult =
  qubitStates :: "QubitState list"
  measurementResults :: "Outcome list"

definition initialStates :: "nat \<Rightarrow> QubitState list" where
  "initialStates numQubits =
     replicate numQubits
       \<lparr> alpha = \<lparr> real_part = 1, imag_part = 0 \<rparr>,
         beta = \<lparr> real_part = 0, imag_part = 0 \<rparr> \<rparr>"

text \<open>
  \<open>simulateCircuit\<close>, lines 87 to 199, as a function of the component state it
  reads (\<open>numQubits\<close>, \<open>gates\<close>, \<open>shots\<close>) and of the random draws; the result is
  what it hands to \<open>setQubitStates\<close> and \<open>setMeasurementResults\<close>. The division
  \<open>p / total\<close> is the division of the reals; \<open>total\<close> is never zero here
  (lemma \<open>total_one\<close> below).
\<close>

definition simulateCircuit ::
    "nat \<Rightarrow> Gate list \<Rightarrow> nat \<Rightarrow> (nat \<Rightarrow> real) \<Rightarrow> error + SimResult" where
  "simulateCircuit numQubits gates shots random =
     (if numQubits > maxLengthArgument then Inl RangeError
      else
        let states = foldl (applyGate numQubits) (initialStates numQubits) gates in
        case probabilities numQubits states of
          Inl e \<Rightarrow> Inl e
        | Inr probs \<Rightarrow>
            let total = foldl (+) 0 probs;
                normalized = map (\<lambda>p. p / total) probs;
                counts = sampleShots numQubits shots normalized random;
                results = sortResults (map (toOutcome shots) (objectEntries counts))
            in Inr \<lparr> qubitStates = states, measurementResults = results \<rparr>)"

text \<open>A source of draws that returns the same value at every call.\<close>

definition constantDraws :: "real \<Rightarrow> nat \<Rightarrow> real" where
  "constantDraws r i = r"

subsection \<open>Notions used in the statements and proofs\<close>


text \<open>The factor that qubit \<open>q\<close> contributes for the bit value \<open>b\<close>.\<close>

definition weight :: "QubitState list \<Rightarrow> nat \<Rightarrow> nat \<Rightarrow> real" where
  "weight states q b = ampProb (if b = 0 then alpha (states ! q) else beta (states ! q))"

text \<open>
  A product of factors chosen by the binary digits of \<open>i\<close>, the digit of weight
  \<open>2 ^ (n - 1 - q)\<close> choosing the factor of position \<open>q\<close>.
\<close>

definition bitProd :: "(nat \<Rightarrow> nat \<Rightarrow> real) \<Rightarrow> nat \<Rightarrow> nat \<Rightarrow> real" where
  "bitProd g n i = (\<Prod>q<n. g q ((i div 2 ^ (n - 1 - q)) mod 2))"

text \<open>The \<open>n\<close> low binary digits of \<open>i\<close>, most significant first.\<close>

definition bitsOf :: "nat \<Rightarrow> nat \<Rightarrow> string" where
  "bitsOf n i = map (\<lambda>q. binDigit ((i div 2 ^ (n - 1 - q)) mod 2)) [0..<n]"


section \<open>Single-qubit gates\<close>

subsection \<open>Arithmetic with a factor whose square is one half\<close>

lemma half_sum:
  "k * k = 1 / 2 \<Longrightarrow> k * (k * (a + b) + k * (a - b)) = (a::real)"
proof -
  assume kk: "k * k = 1 / 2"
  have "k * (k * (a + b) + k * (a - b)) = (k * k) * (2 * a)"
    by (simp add: algebra_simps)
  then show ?thesis by (simp add: kk)
qed

lemma half_diff:
  "k * k = 1 / 2 \<Longrightarrow> k * (k * (a + b) - k * (a - b)) = (b::real)"
proof -
  assume kk: "k * k = 1 / 2"
  have "k * (k * (a + b) - k * (a - b)) = (k * k) * (2 * b)"
    by (simp add: algebra_simps)
  then show ?thesis by (simp add: kk)
qed

lemma half_squares:
  "k * k = 1 / 2 \<Longrightarrow>
   k * (a + b) * (k * (a + b)) + k * (a - b) * (k * (a - b)) = a * a + b * (b::real)"
proof -
  assume kk: "k * k = 1 / 2"
  have "k * (a + b) * (k * (a + b)) + k * (a - b) * (k * (a - b))
        = (k * k) * (2 * (a * a + b * b))"
    by (simp add: algebra_simps)
  then show ?thesis by (simp add: kk)
qed

lemma rot_squares:
  "k * k = 1 / 2 \<Longrightarrow>
   (k * a - k * b) * (k * a - k * b) + (k * a + k * b) * (k * a + k * b)
   = a * a + b * (b::real)"
proof -
  assume kk: "k * k = 1 / 2"
  have "(k * a - k * b) * (k * a - k * b) + (k * a + k * b) * (k * a + k * b)
        = (k * k) * (2 * (a * a + b * b))"
    by (simp add: algebra_simps)
  then show ?thesis by (simp add: kk)
qed

lemma rot_twice_re:
  "k * k = 1 / 2 \<Longrightarrow> k * (k * a - k * b) - k * (k * a + k * b) = - (b::real)"
proof -
  assume kk: "k * k = 1 / 2"
  have "k * (k * a - k * b) - k * (k * a + k * b) = (k * k) * (- 2 * b)"
    by (simp add: algebra_simps)
  then show ?thesis by (simp add: kk)
qed

lemma rot_twice_im:
  "k * k = 1 / 2 \<Longrightarrow> k * (k * a - k * b) + k * (k * a + k * b) = (a::real)"
proof -
  assume kk: "k * k = 1 / 2"
  have "k * (k * a - k * b) + k * (k * a + k * b) = (k * k) * (2 * a)"
    by (simp add: algebra_simps)
  then show ?thesis by (simp add: kk)
qed

lemma sqrt_half_sq: "sqrt (1 / 2) * sqrt (1 / 2) = 1 / 2"
  by simp

lemma cos_quarter: "cos (pi / 4) = sqrt (1 / 2)"
  by (simp add: cos_45 real_sqrt_divide real_div_sqrt)

lemma sin_quarter: "sin (pi / 4) = sqrt (1 / 2)"
  by (simp add: sin_45 real_sqrt_divide real_div_sqrt)

subsection \<open>Norm preservation\<close>

lemma norm_H: "normSq (gateAction H s) = normSq s"
proof -
  define k where "k = sqrt (1 / 2)"
  have kk: "k * k = 1 / 2" unfolding k_def by (rule sqrt_half_sq)
  have "normSq (gateAction H s) =
      (k * (real_part (alpha s) + real_part (beta s))
         * (k * (real_part (alpha s) + real_part (beta s)))
       + k * (real_part (alpha s) - real_part (beta s))
         * (k * (real_part (alpha s) - real_part (beta s))))
    + (k * (imag_part (alpha s) + imag_part (beta s))
         * (k * (imag_part (alpha s) + imag_part (beta s)))
       + k * (imag_part (alpha s) - imag_part (beta s))
         * (k * (imag_part (alpha s) - imag_part (beta s))))"
    by (simp add: normSq_def ampProb_def Let_def k_def)
  also have "\<dots> = normSq s"
    by (simp only: half_squares[OF kk]) (simp add: normSq_def ampProb_def)
  finally show ?thesis .
qed

lemma norm_T: "normSq (gateAction T s) = normSq s"
proof -
  define k where "k = sqrt (1 / 2)"
  have kk: "k * k = 1 / 2" unfolding k_def by (rule sqrt_half_sq)
  have "normSq (gateAction T s) = ampProb (alpha s) +
      ((k * real_part (beta s) - k * imag_part (beta s))
         * (k * real_part (beta s) - k * imag_part (beta s))
       + (k * real_part (beta s) + k * imag_part (beta s))
         * (k * real_part (beta s) + k * imag_part (beta s)))"
    by (simp add: normSq_def ampProb_def Let_def cos_quarter sin_quarter k_def)
  also have "\<dots> = normSq s"
    by (simp only: rot_squares[OF kk]) (simp add: normSq_def ampProb_def)
  finally show ?thesis .
qed

lemma norm_X: "normSq (gateAction X s) = normSq s"
  by (simp add: normSq_def Let_def)

lemma norm_Y: "normSq (gateAction Y s) = normSq s"
  by (simp add: normSq_def ampProb_def Let_def)

lemma norm_Z: "normSq (gateAction Z s) = normSq s"
  by (simp add: normSq_def ampProb_def)

lemma norm_S: "normSq (gateAction S s) = normSq s"
  by (simp add: normSq_def ampProb_def)

lemma norm_gateAction: "normSq (gateAction g s) = normSq s"
proof (cases g)
  case H then show ?thesis by (simp only: norm_H)
next
  case X then show ?thesis by (simp only: norm_X)
next
  case Y then show ?thesis by (simp only: norm_Y)
next
  case Z then show ?thesis by (simp only: norm_Z)
next
  case CNOT then show ?thesis by simp
next
  case T then show ?thesis by (simp only: norm_T)
next
  case S then show ?thesis by (simp only: norm_S)
next
  case M then show ?thesis by simp
qed

text \<open>
  Claim C2. One application of any of the gates \<open>H\<close>, \<open>X\<close>, \<open>Y\<close>, \<open>Z\<close>, \<open>S\<close>, \<open>T\<close>
  to any qubit state leaves \<open>|alpha|^2 + |beta|^2\<close> unchanged, in exact real
  arithmetic.
\<close>

theorem gate_preserves_norm:
  "normSq (gateAction H s) = normSq s \<and>
   normSq (gateAction X s) = normSq s \<and>
   normSq (gateAction Y s) = normSq s \<and>
   normSq (gateAction Z s) = normSq s \<and>
   normSq (gateAction S s) = normSq s \<and>
   normSq (gateAction T s) = normSq s"
  using norm_H norm_X norm_Y norm_Z norm_S norm_T by blast

subsection \<open>Algebraic relations between the gates\<close>

lemma H_twice: "gateAction H (gateAction H s) = s"
proof -
  have kk: "sqrt (1 / 2) * sqrt (1 / 2) = 1 / 2" by (rule sqrt_half_sq)
  show ?thesis
    by (simp add: Let_def half_sum[OF kk] half_diff[OF kk])
qed

text \<open>
  Claim C7. Each of \<open>X\<close>, \<open>Y\<close>, \<open>Z\<close> and \<open>H\<close>, applied twice in succession to any
  qubit state, gives the state back.
\<close>

theorem involutory_gates_twice:
  "gateAction X (gateAction X s) = s \<and>
   gateAction Y (gateAction Y s) = s \<and>
   gateAction Z (gateAction Z s) = s \<and>
   gateAction H (gateAction H s) = s"
proof -
  have "gateAction X (gateAction X s) = s" by (simp add: Let_def)
  moreover have "gateAction Y (gateAction Y s) = s" by (simp add: Let_def)
  moreover have "gateAction Z (gateAction Z s) = s" by simp
  ultimately show ?thesis using H_twice by blast
qed

text \<open>
  Claim C8. Two applications of \<open>S\<close> to any qubit state give the state that one
  application of \<open>Z\<close> gives.
\<close>

theorem S_twice_is_Z: "gateAction S (gateAction S s) = gateAction Z s"
  by simp

text \<open>
  Claim C9. Two applications of \<open>T\<close> to any qubit state give the state that one
  application of \<open>S\<close> gives.
\<close>

theorem T_twice_is_S: "gateAction T (gateAction T s) = gateAction S s"
proof -
  have kk: "sqrt (1 / 2) * sqrt (1 / 2) = 1 / 2" by (rule sqrt_half_sq)
  show ?thesis
    by (simp add: Let_def cos_quarter sin_quarter rot_twice_re[OF kk] rot_twice_im[OF kk])
qed

section \<open>Gates on the state array\<close>

text \<open>
  Claim C4. A gate whose qubit is not below \<open>numQubits\<close> leaves the whole state
  array as it is; \<open>applyGate\<close> has no error to raise.
\<close>

theorem out_of_range_gate_is_noop:
  "numQubits \<le> qubit gate \<Longrightarrow> applyGate numQubits states gate = states"
  by (simp add: applyGate_def)

text \<open>Claim C4 on two qubits, for an \<open>X\<close> gate placed on qubit 2.\<close>

theorem out_of_range_gate_is_noop_witness:
  "(2::nat) \<le> qubit \<lparr> gate_id = ''g'', type = X, qubit = 2, controlQubit = None \<rparr> \<and>
   applyGate 2 (initialStates 2)
     \<lparr> gate_id = ''g'', type = X, qubit = 2, controlQubit = None \<rparr> = initialStates 2"
  using out_of_range_gate_is_noop
    [of 2 "\<lparr> gate_id = ''g'', type = X, qubit = 2, controlQubit = None \<rparr>" "initialStates 2"]
  by simp

text \<open>
  Claim C10. A gate of kind \<open>CNOT\<close> or \<open>M\<close> changes no amplitude of any qubit,
  whatever its target, its control qubit and the state array are.
\<close>

theorem CNOT_and_M_are_noops:
  "type gate = CNOT \<or> type gate = M \<Longrightarrow> applyGate numQubits states gate = states"
  by (auto simp add: applyGate_def Let_def)

text \<open>
  Claim C10 on two qubits: a \<open>CNOT\<close> on qubit 1 whose control, qubit 0, is in
  the state \<open>|1>\<close>.
\<close>

theorem CNOT_and_M_are_noops_witness:
  "type \<lparr> gate_id = ''g'', type = CNOT, qubit = 1, controlQubit = Some 0 \<rparr> = CNOT \<and>
   applyGate 2
     [\<lparr> alpha = \<lparr> real_part = 0, imag_part = 0 \<rparr>, beta = \<lparr> real_part = 1, imag_part = 0 \<rparr> \<rparr>,
      \<lparr> alpha = \<lparr> real_part = 1, imag_part = 0 \<rparr>, beta = \<lparr> real_part = 0, imag_part = 0 \<rparr> \<rparr>]
     \<lparr> gate_id = ''g'', type = CNOT, qubit = 1, controlQubit = Some 0 \<rparr>
   = [\<lparr> alpha = \<lparr> real_part = 0, imag_part = 0 \<rparr>, beta = \<lparr> real_part = 1, imag_part = 0 \<rparr> \<rparr>,
      \<lparr> alpha = \<lparr> real_part = 1, imag_part = 0 \<rparr>, beta = \<lparr> real_part = 0, imag_part = 0 \<rparr> \<rparr>]"
  using CNOT_and_M_are_noops
    [of "\<lparr> gate_id = ''g'', type = CNOT, qubit = 1, controlQubit = Some 0 \<rparr>" 2
        "[\<lparr> alpha = \<lparr> real_part = 0, imag_part = 0 \<rparr>, beta = \<lparr> real_part = 1, imag_part = 0 \<rparr> \<rparr>,
          \<lparr> alpha = \<lparr> real_part = 1, imag_part = 0 \<rparr>, beta = \<lparr> real_part = 0, imag_part = 0 \<rparr> \<rparr>]"]
  by simp

section \<open>The run of a circuit\<close>

subsection \<open>Sums and products over the basis states\<close>

lemma foldl_times_prod:
  "foldl (\<lambda>prob q. prob * f q) a [0..<n] = a * prod f {..<n}" for a :: real
  by (induction n) (simp_all add: mult.assoc)

lemma foldl_plus_sum_list: "foldl (+) a xs = a + sum_list xs" for a :: real
  by (induction xs arbitrary: a) (simp_all add: add.assoc)

lemma sum_list_map_upt: "sum_list (map f [0..<m]) = sum f {..<m}" for f :: "nat \<Rightarrow> real"
  by (induction m) simp_all

lemma sum_even_odd:
  "sum f {..<2 * m} = (\<Sum>j<m. f (2 * j) + f (2 * j + 1))" for f :: "nat \<Rightarrow> real"
  by (induction m) simp_all

lemma jointProb_prod:
  "jointProb numQubits states i =
     (\<Prod>q<numQubits. ampProb (if shiftRightAnd1 i (numQubits - 1 - q) = 0
                                then alpha (states ! q) else beta (states ! q)))"
  by (simp add: jointProb_def Let_def foldl_times_prod)

lemma shiftRightAnd1_small:
  assumes "numQubits \<le> 32" "i < 2 ^ numQubits" "q < numQubits"
  shows "shiftRightAnd1 i (numQubits - 1 - q) = (i div 2 ^ (numQubits - 1 - q)) mod 2"
proof -
  have "(2::nat) ^ numQubits \<le> 2 ^ 32"
    using assms(1) by (rule power_increasing) simp
  then have "i < 2 ^ 32" using assms(2) by linarith
  moreover have "numQubits - 1 - q < 32" using assms(1,3) by linarith
  ultimately show ?thesis by (simp add: shiftRightAnd1_def)
qed

lemma bitProd_Suc:
  "bitProd g (Suc n) i = bitProd g n (i div 2) * g n (i mod 2)"
proof -
  have "(\<Prod>q<n. g q ((i div 2 ^ (Suc n - 1 - q)) mod 2))
        = (\<Prod>q<n. g q (((i div 2) div 2 ^ (n - 1 - q)) mod 2))"
  proof (rule prod.cong)
    fix q assume "q \<in> {..<n}"
    then have "Suc n - 1 - q = Suc (n - 1 - q)" by auto
    then show "g q ((i div 2 ^ (Suc n - 1 - q)) mod 2)
               = g q (((i div 2) div 2 ^ (n - 1 - q)) mod 2)"
      by (simp add: div_mult2_eq)
  qed simp
  then show ?thesis by (simp add: bitProd_def)
qed

lemma sum_bitProd:
  "(\<Sum>i<2 ^ n. bitProd g n i) = (\<Prod>q<n. g q 0 + g q 1)"
proof (induction n)
  case 0
  show ?case by (simp add: bitProd_def)
next
  case (Suc n)
  have "(\<Sum>i<2 ^ Suc n. bitProd g (Suc n) i)
        = (\<Sum>i<2 * 2 ^ n. bitProd g n (i div 2) * g n (i mod 2))"
    by (simp add: bitProd_Suc)
  also have "\<dots> = (\<Sum>j<2 ^ n. bitProd g n j * g n 0 + bitProd g n j * g n 1)"
    by (simp add: sum_even_odd)
  also have "\<dots> = (\<Sum>j<2 ^ n. bitProd g n j) * (g n 0 + g n 1)"
    by (simp add: sum_distrib_right distrib_left sum.distrib)
  finally show ?case by (simp add: Suc.IH)
qed


lemma jointProb_bitProd:
  assumes "numQubits \<le> 32" "i < 2 ^ numQubits"
  shows "jointProb numQubits states i = bitProd (weight states) numQubits i"
  unfolding jointProb_prod bitProd_def
proof (rule prod.cong)
  fix q assume "q \<in> {..<numQubits}"
  then have "q < numQubits" by simp
  then have "shiftRightAnd1 i (numQubits - 1 - q) = (i div 2 ^ (numQubits - 1 - q)) mod 2"
    by (rule shiftRightAnd1_small[OF assms])
  then show "ampProb (if shiftRightAnd1 i (numQubits - 1 - q) = 0
                      then alpha (states ! q) else beta (states ! q))
             = weight states q ((i div 2 ^ (numQubits - 1 - q)) mod 2)"
    by (simp only: weight_def)
qed simp

lemma weight_sum: "weight states q 0 + weight states q 1 = normSq (states ! q)"
  by (simp add: weight_def normSq_def)

lemma length_applyGate: "length (applyGate numQubits states gate) = length states"
  by (simp add: applyGate_def Let_def)

lemma normSq_applyGate:
  assumes "\<forall>q<length states. normSq (states ! q) = 1" "q < length states"
  shows "normSq (applyGate numQubits states gate ! q) = 1"
  using assms
  by (cases "q = qubit gate") (simp_all add: applyGate_def Let_def norm_gateAction)

lemma run_gates_invariant:
  assumes "\<forall>q<length states. normSq (states ! q) = 1"
  shows "length (foldl (applyGate numQubits) states gates) = length states \<and>
         (\<forall>q<length states. normSq (foldl (applyGate numQubits) states gates ! q) = 1)"
  using assms
proof (induction gates arbitrary: states)
  case Nil
  then show ?case by simp
next
  case (Cons g gates)
  have "\<forall>q<length (applyGate numQubits states g).
          normSq (applyGate numQubits states g ! q) = 1"
    using Cons.prems by (simp add: length_applyGate normSq_applyGate)
  from Cons.IH[OF this] show ?case by (simp add: length_applyGate)
qed

lemma initialStates_invariant:
  "length (initialStates n) = n \<and> (\<forall>q<length (initialStates n). normSq (initialStates n ! q) = 1)"
  by (simp add: initialStates_def normSq_def ampProb_def)

lemma final_states:
  "length (foldl (applyGate n) (initialStates n) gates) = n \<and>
   (\<forall>q<n. normSq (foldl (applyGate n) (initialStates n) gates ! q) = 1)"
  using run_gates_invariant[of "initialStates n" n gates] initialStates_invariant[of n]
  by simp

lemma two_power_le_max: "n \<le> 26 \<Longrightarrow> \<not> (2::nat) ^ n > maxPushLength"
proof -
  assume "n \<le> 26"
  then have "(2::nat) ^ n \<le> 2 ^ 26" by (rule power_increasing) simp
  then show ?thesis by (simp add: maxPushLength_def)
qed


lemma probabilities_ok:
  "numQubits \<le> 26 \<Longrightarrow>
   probabilities numQubits states = Inr (map (jointProb numQubits states) [0..<2 ^ numQubits])"
  using two_power_le_max[of numQubits] by (simp add: probabilities_def Let_def)


lemma sum_jointProb:
  assumes "numQubits \<le> 32"
  shows "sum_list (map (jointProb numQubits states) [0..<2 ^ numQubits])
         = (\<Prod>q<numQubits. normSq (states ! q))"
proof -
  have "sum_list (map (jointProb numQubits states) [0..<2 ^ numQubits])
        = (\<Sum>i<2 ^ numQubits. jointProb numQubits states i)"
    by (rule sum_list_map_upt)
  also have "\<dots> = (\<Sum>i<2 ^ numQubits. bitProd (weight states) numQubits i)"
    by (rule sum.cong) (simp_all add: jointProb_bitProd[OF assms])
  also have "\<dots> = (\<Prod>q<numQubits. normSq (states ! q))"
    by (simp only: sum_bitProd weight_sum)
  finally show ?thesis .
qed

lemma total_one:
  assumes "numQubits \<le> 26"
  shows "foldl (+) 0 (map (jointProb numQubits (foldl (applyGate numQubits) (initialStates numQubits) gates))
                       [0..<2 ^ numQubits]) = 1"
proof -
  have "numQubits \<le> 32" using assms by simp
  then show ?thesis
    using final_states[of numQubits gates]
    by (simp add: foldl_plus_sum_list sum_jointProb)
qed

lemma pickState_finds:
  "ps \<noteq> [] \<Longrightarrow> r \<le> cumulative + sum_list ps \<Longrightarrow>
   \<exists>k. pickState r cumulative j ps = Some k"
proof (induction ps arbitrary: cumulative j)
  case Nil
  then show ?case by simp
next
  case (Cons p ps)
  show ?case
  proof (cases "r \<le> cumulative + p")
    case True
    then show ?thesis by simp
  next
    case False
    with Cons.prems have "ps \<noteq> []" by auto
    moreover have "r \<le> (cumulative + p) + sum_list ps"
      using Cons.prems by (simp add: add.assoc)
    ultimately obtain k where "pickState r (cumulative + p) (j + 1) ps = Some k"
      using Cons.IH by blast
    with False show ?thesis by simp
  qed
qed

lemma sum_incrementCount:
  "sum_list (map snd (incrementCount key counts)) = Suc (sum_list (map snd counts))"
  by (induction counts) auto

lemma sum_sampleShots:
  assumes "\<forall>i<shots. \<exists>k. pickState (random i) 0 0 normalized = Some k"
  shows "sum_list (map snd (sampleShots numQubits shots normalized random)) = shots"
  using assms unfolding sampleShots_def
proof (induction shots)
  case 0
  show ?case by simp
next
  case (Suc shots)
  obtain k where k: "pickState (random shots) 0 0 normalized = Some k"
    using Suc.prems by auto
  have "\<forall>i<shots. \<exists>k. pickState (random i) 0 0 normalized = Some k"
    using Suc.prems by auto
  from Suc.IH[OF this] show ?case
    by (simp add: k sum_incrementCount)
qed

lemma mset_objectEntries: "mset (objectEntries props) = mset props"
  by (simp add: objectEntries_def)

lemma mset_sortResults: "mset (sortResults rs) = mset rs"
  by (simp add: sortResults_def)

lemma sum_list_mset_cong:
  "mset xs = mset ys \<Longrightarrow> sum_list (map f xs) = sum_list (map f ys)" for f :: "'a \<Rightarrow> 'b::comm_monoid_add"
  by (metis mset_map sum_mset_sum_list)

lemma results_count_sum:
  "sum_list (map count (sortResults (map (toOutcome shots) (objectEntries counts))))
   = sum_list (map snd counts)"
proof -
  have "sum_list (map count (sortResults (map (toOutcome shots) (objectEntries counts))))
        = sum_list (map count (map (toOutcome shots) (objectEntries counts)))"
    by (rule sum_list_mset_cong) (rule mset_sortResults)
  also have "\<dots> = sum_list (map snd (objectEntries counts))"
    by (simp add: toOutcome_def comp_def)
  also have "\<dots> = sum_list (map snd counts)"
    by (rule sum_list_mset_cong) (rule mset_objectEntries)
  finally show ?thesis .
qed

lemma results_probability_sum:
  "sum_list (map probability (sortResults (map (toOutcome shots) (objectEntries counts))))
   = real (sum_list (map snd counts)) / real shots"
proof -
  have "sum_list (map probability (sortResults (map (toOutcome shots) (objectEntries counts))))
        = sum_list (map probability (map (toOutcome shots) (objectEntries counts)))"
    by (rule sum_list_mset_cong) (rule mset_sortResults)
  also have "\<dots> = sum_list (map (\<lambda>kv. real (snd kv) / real shots) (objectEntries counts))"
    by (simp add: toOutcome_def comp_def)
  also have "\<dots> = sum_list (map (\<lambda>kv. real (snd kv) / real shots) counts)"
    by (rule sum_list_mset_cong) (rule mset_objectEntries)
  also have "\<dots> = real (sum_list (map snd counts)) / real shots"
    by (induction counts) (simp_all add: add_divide_distrib)
  finally show ?thesis .
qed

subsection \<open>The result of a run\<close>

lemma simulateCircuit_returns:
  assumes "numQubits \<le> 26"
  shows "simulateCircuit numQubits gates shots random =
         Inr \<lparr> qubitStates = foldl (applyGate numQubits) (initialStates numQubits) gates,
               measurementResults =
                 sortResults (map (toOutcome shots) (objectEntries
                   (sampleShots numQubits shots
                      (map (jointProb numQubits
                              (foldl (applyGate numQubits) (initialStates numQubits) gates))
                           [0..<2 ^ numQubits])
                      random))) \<rparr>"
proof -
  have "\<not> numQubits > maxLengthArgument"
    using assms by (simp add: maxLengthArgument_def)
  then show ?thesis
    by (simp add: simulateCircuit_def probabilities_ok[OF assms] total_one[OF assms] Let_def comp_def)
qed

lemma every_draw_lands:
  assumes "numQubits \<le> 26" "r \<le> 1"
  shows "\<exists>k. pickState r 0 0
           (map (jointProb numQubits (foldl (applyGate numQubits) (initialStates numQubits) gates))
                [0..<2 ^ numQubits]) = Some k"
proof (rule pickState_finds)
  show "map (jointProb numQubits (foldl (applyGate numQubits) (initialStates numQubits) gates))
            [0..<2 ^ numQubits] \<noteq> []"
    by simp
  have "sum_list (map (jointProb numQubits (foldl (applyGate numQubits) (initialStates numQubits) gates))
            [0..<2 ^ numQubits]) = 1"
    using total_one[OF assms(1), of gates] by (simp add: foldl_plus_sum_list)
  then show "r \<le> 0 + sum_list (map (jointProb numQubits
                 (foldl (applyGate numQubits) (initialStates numQubits) gates)) [0..<2 ^ numQubits])"
    using assms(2) by simp
qed

text \<open>
  Claim C1, as amended. \<open>simulateCircuit\<close> validates nothing and has no
  invalid-argument failure: for every qubit count from 0 to 26, every list
  of gates on natural-number qubits, every shot count (zero included) and
  every sequence of draws it returns a result.
\<close>

theorem simulateCircuit_no_validation:
  "numQubits \<le> 26 \<Longrightarrow> \<exists>res. simulateCircuit numQubits gates shots random = Inr res"
  by (simp add: simulateCircuit_returns)

text \<open>The amended claim C1 at zero qubits and zero shots.\<close>

theorem simulateCircuit_no_validation_witness:
  "(0::nat) \<le> 26 \<and> (\<exists>res. simulateCircuit 0 [] 0 (constantDraws 0) = Inr res)"
  using simulateCircuit_no_validation [of 0 "[]" 0 "constantDraws 0"]
  by simp

text \<open>
  Claim C1 as stated fails: with no qubit and one shot, and with one qubit and
  no shot, the run ends normally, with the results shown.
\<close>

theorem simulateCircuit_accepts_zero_counts:
  "simulateCircuit 0 [] 1 (constantDraws 0) =
     Inr \<lparr> qubitStates = [],
           measurementResults = [\<lparr> state = ''0'', probability = 1, count = 1 \<rparr>] \<rparr> \<and>
   simulateCircuit 1 [] 0 (constantDraws 0) =
     Inr \<lparr> qubitStates =
             [\<lparr> alpha = \<lparr> real_part = 1, imag_part = 0 \<rparr>,
                beta = \<lparr> real_part = 0, imag_part = 0 \<rparr> \<rparr>],
           measurementResults = [] \<rparr>"
  by (simp add: simulateCircuit_def probabilities_def maxLengthArgument_def maxPushLength_def
      initialStates_def
      jointProb_def sampleShots_def constantDraws_def stateLabel_def padStart_def
      toBinary.simps[of 0] binDigit_def objectEntries_def toOutcome_def sortResults_def)

text \<open>
  Claim C3, as amended. For every qubit count from 1 to 26, every gate list,
  every shot count of at least 1 and every sequence of draws in \<open>[0, 1)\<close>, the
  run returns outcomes whose \<open>probability\<close> fields sum to 1 and whose counts sum
  to the shot count.
\<close>

theorem outcome_probabilities_sum_to_one:
  assumes "1 \<le> numQubits" "numQubits \<le> 26" "1 \<le> shots"
    and "\<forall>i. 0 \<le> random i \<and> random i < 1"
  shows "\<exists>res. simulateCircuit numQubits gates shots random = Inr res \<and>
           sum_list (map probability (measurementResults res)) = 1 \<and>
           sum_list (map count (measurementResults res)) = shots"
proof -
  let ?probs = "map (jointProb numQubits (foldl (applyGate numQubits) (initialStates numQubits) gates))
                    [0..<2 ^ numQubits]"
  let ?counts = "sampleShots numQubits shots ?probs random"
  have "\<forall>i<shots. \<exists>k. pickState (random i) 0 0 ?probs = Some k"
  proof (intro allI impI)
    fix i
    have "random i \<le> 1" using assms(4) by (simp add: less_imp_le)
    then show "\<exists>k. pickState (random i) 0 0 ?probs = Some k"
      by (rule every_draw_lands[OF assms(2)])
  qed
  then have total: "sum_list (map snd ?counts) = shots"
    by (rule sum_sampleShots)
  have "real shots / real shots = 1" using assms(3) by simp
  then show ?thesis
    by (simp add: simulateCircuit_returns[OF assms(2)] results_probability_sum
        results_count_sum total)
qed

text \<open>The amended claim C3 on one qubit with a Hadamard gate and two shots.\<close>

theorem outcome_probabilities_sum_to_one_witness:
  "(1::nat) \<le> 1 \<and> (1::nat) \<le> 26 \<and> (1::nat) \<le> 2 \<and>
   (\<forall>i. 0 \<le> constantDraws (1 / 2) i \<and> constantDraws (1 / 2) i < 1) \<and>
   (\<exists>res. simulateCircuit 1 [\<lparr> gate_id = ''h'', type = H, qubit = 0, controlQubit = None \<rparr>]
             2 (constantDraws (1 / 2)) = Inr res \<and>
          sum_list (map probability (measurementResults res)) = 1 \<and>
          sum_list (map count (measurementResults res)) = 2)"
  using outcome_probabilities_sum_to_one
    [of 1 2 "constantDraws (1 / 2)"
        "[\<lparr> gate_id = ''h'', type = H, qubit = 0, controlQubit = None \<rparr>]"]
  by (simp add: constantDraws_def)

text \<open>
  Claim C3 as stated fails at 27 qubits: the loop that fills the \<open>2^27\<close>
  probabilities ends in the \<open>RangeError\<close> of \<open>push\<close> and the run returns no
  outcome.
\<close>

theorem no_outcomes_at_27_qubits:
  "simulateCircuit 27 [\<lparr> gate_id = ''h'', type = H, qubit = 0, controlQubit = None \<rparr>]
     1 (constantDraws 0) = Inl RangeError"
  by (simp add: simulateCircuit_def probabilities_def maxLengthArgument_def maxPushLength_def)

subsection \<open>The empty circuit\<close>

lemma shiftRightAnd1_zero: "shiftRightAnd1 0 k = 0"
  by (simp add: shiftRightAnd1_def)

lemma jointProb_initial_zero: "jointProb numQubits (initialStates numQubits) 0 = 1"
  by (simp add: jointProb_prod shiftRightAnd1_zero initialStates_def ampProb_def)

lemma probabilities_initial:
  "map (jointProb numQubits (initialStates numQubits)) [0..<2 ^ numQubits]
   = 1 # map (jointProb numQubits (initialStates numQubits)) [Suc 0..<2 ^ numQubits]"
  by (simp add: upt_conv_Cons jointProb_initial_zero)

lemma sampleShots_all_first:
  assumes "\<forall>i<shots. pickState (random i) 0 0 normalized = Some 0" "1 \<le> shots"
  shows "sampleShots numQubits shots normalized random = [(stateLabel numQubits 0, shots)]"
  using assms unfolding sampleShots_def
proof (induction shots)
  case 0
  then show ?case by simp
next
  case (Suc shots)
  have pick: "pickState (random shots) 0 0 normalized = Some 0"
    using Suc.prems by simp
  show ?case
  proof (cases "shots = 0")
    case True
    then show ?thesis using pick by simp
  next
    case False
    then have "1 \<le> shots" by simp
    moreover have "\<forall>i<shots. pickState (random i) 0 0 normalized = Some 0"
      using Suc.prems by simp
    ultimately show ?thesis using Suc.IH by (simp add: pick)
  qed
qed

lemma toBinary_zero: "toBinary 0 = [CHR ''0'']"
  by (simp add: toBinary.simps binDigit_def)

lemma stateLabel_zero: "1 \<le> numQubits \<Longrightarrow> stateLabel numQubits 0 = replicate numQubits (CHR ''0'')"
  by (cases numQubits) (simp_all add: stateLabel_def padStart_def toBinary_zero replicate_append_same)

lemma objectEntries_single: "objectEntries [kv] = [kv]"
  by (simp add: objectEntries_def)

lemma sortResults_single: "sortResults [r] = [r]"
  by (simp add: sortResults_def)

text \<open>
  Claim C6, as amended. For every qubit count \<open>n\<close> from 1 to 26 and every shot
  count of at least 1, the run of the empty gate list returns exactly one
  outcome, the string of \<open>n\<close> zeros, with count equal to the shot count and
  probability 1, for every sequence of draws in \<open>[0, 1)\<close>.
\<close>

theorem empty_circuit_all_zeros:
  assumes "1 \<le> numQubits" "numQubits \<le> 26" "1 \<le> shots"
    and "\<forall>i. 0 \<le> random i \<and> random i < 1"
  shows "simulateCircuit numQubits [] shots random =
         Inr \<lparr> qubitStates = initialStates numQubits,
               measurementResults =
                 [\<lparr> state = replicate numQubits (CHR ''0''), probability = 1, count = shots \<rparr>] \<rparr>"
proof -
  let ?probs = "map (jointProb numQubits (initialStates numQubits)) [0..<2 ^ numQubits]"
  have "\<forall>i<shots. pickState (random i) 0 0 ?probs = Some 0"
  proof (intro allI impI)
    fix i
    have "random i \<le> 1" using assms(4) by (simp add: less_imp_le)
    then show "pickState (random i) 0 0 ?probs = Some 0"
      by (subst probabilities_initial) simp
  qed
  then have "sampleShots numQubits shots ?probs random = [(stateLabel numQubits 0, shots)]"
    using assms(3) by (rule sampleShots_all_first)
  moreover have "real shots / real shots = 1" using assms(3) by simp
  ultimately show ?thesis
    using simulateCircuit_returns[OF assms(2), of "[]" shots random]
    by (simp add: objectEntries_single sortResults_single toOutcome_def
        stateLabel_zero[OF assms(1)])
qed

text \<open>The amended claim C6 on two qubits and three shots.\<close>

theorem empty_circuit_all_zeros_witness:
  "(1::nat) \<le> 2 \<and> (2::nat) \<le> 26 \<and> (1::nat) \<le> 3 \<and>
   (\<forall>i. 0 \<le> constantDraws (1 / 2) i \<and> constantDraws (1 / 2) i < 1) \<and>
   simulateCircuit 2 [] 3 (constantDraws (1 / 2)) =
     Inr \<lparr> qubitStates = initialStates 2,
           measurementResults = [\<lparr> state = ''00'', probability = 1, count = 3 \<rparr>] \<rparr>"
  using empty_circuit_all_zeros [of 2 3 "constantDraws (1 / 2)"]
  by (simp add: constantDraws_def numeral_2_eq_2)

text \<open>
  Claim C6 as stated fails at 27 qubits: the run of the empty gate list ends
  in the \<open>RangeError\<close> of \<open>push\<close>.
\<close>

theorem empty_circuit_fails_at_27_qubits:
  "simulateCircuit 27 [] 1 (constantDraws 0) = Inl RangeError"
  by (simp add: simulateCircuit_def probabilities_def maxLengthArgument_def maxPushLength_def)

subsection \<open>Bitstrings and joint probabilities\<close>



lemma length_bitsOf: "length (bitsOf n i) = n"
  by (simp add: bitsOf_def)








end
